theory Spec2Isabelle
  imports Main
begin

section \<open>Decoded JSON values and the Python operations applied to them\<close>

text \<open>
  The monitor of \<^verbatim>\<open>src/monitoring/sentry-integration.py\<close> reads three HTTP responses per
  cycle and decodes each with \<^verbatim>\<open>response.json()\<close>. A decoded value is one of the
  Python objects the decoder produces. Numbers are Python integers; fractional numbers
  are outside this development. An object keeps its members in the order of the
  document; a repeated key takes its last value, as in Python.
\<close>

datatype json =
    JNull
  | JBool bool
  | JInt int
  | JStr string
  | JList "json list"
  | JObj "(string \<times> json) list"

text \<open>
  The exceptions of the program are instances of Python's class \<^verbatim>\<open>Exception\<close>:
  the ones raised by subscripting, iterating, comparing and converting decoded values,
  and the ones raised by a library call (request, decoding, push), named by their class.
\<close>

datatype py_exception =
    KeyError string
  | TypeError
  | ValueError
  | Raised string

text \<open>
  Three conversions of the Python runtime are not part of the repository and are taken
  as parameters: the text of a list or an object (\<^verbatim>\<open>str\<close> of a container), whether
  \<^verbatim>\<open>float\<close> accepts a text, and the text of an exception.
\<close>

record pylib =
  py_repr :: "json \<Rightarrow> string"
  float_text :: "string \<Rightarrow> bool"
  exc_str :: "py_exception \<Rightarrow> string"

text \<open>\<^verbatim>\<open>v[k]\<close> with a string key: only an object can be subscripted this way.\<close>

fun subscript :: "json \<Rightarrow> string \<Rightarrow> py_exception + json" where
  "subscript (JObj kvs) k =
     (case map_of (rev kvs) k of None \<Rightarrow> Inl (KeyError k) | Some v \<Rightarrow> Inr v)"
| "subscript _ k = Inl TypeError"

text \<open>
  \<^verbatim>\<open>for x in v\<close>: a list yields its elements, an object its keys, a string its
  characters; anything else is not iterable.
\<close>

fun py_iter :: "json \<Rightarrow> py_exception + json list" where
  "py_iter (JList xs) = Inr xs"
| "py_iter (JObj kvs) = Inr (map JStr (rev (remdups (rev (map fst kvs)))))"
| "py_iter (JStr s) = Inr (map (\<lambda>c. JStr [c]) s)"
| "py_iter _ = Inl TypeError"

text \<open>Truth value of a decoded value, as \<^verbatim>\<open>not v\<close> tests it.\<close>

fun truthy :: "json \<Rightarrow> bool" where
  "truthy JNull = False"
| "truthy (JBool b) = b"
| "truthy (JInt n) = (n \<noteq> 0)"
| "truthy (JStr s) = (s \<noteq> [])"
| "truthy (JList xs) = (xs \<noteq> [])"
| "truthy (JObj kvs) = (kvs \<noteq> [])"

text \<open>Decimal text of an integer, as \<^verbatim>\<open>str\<close> and an f-string produce it.\<close>

function str_nat :: "nat \<Rightarrow> string" where
  "str_nat n =
     (if n < 10 then [''0123456789'' ! n]
      else str_nat (n div 10) @ [''0123456789'' ! (n mod 10)])"
  by pat_completeness auto
termination
  by (relation "measure (\<lambda>n. n)") auto

declare str_nat.simps [simp del]

definition str_int :: "int \<Rightarrow> string" where
  "str_int i = (if i < 0 then CHR ''-'' # str_nat (nat (- i)) else str_nat (nat i))"

text \<open>\<^verbatim>\<open>str(v)\<close>, which an f-string and a metric label apply to a value.\<close>

definition py_str :: "pylib \<Rightarrow> json \<Rightarrow> string" where
  "py_str py v =
     (case v of
        JNull \<Rightarrow> ''None''
      | JBool b \<Rightarrow> (if b then ''True'' else ''False'')
      | JInt n \<Rightarrow> str_int n
      | JStr s \<Rightarrow> s
      | _ \<Rightarrow> py_repr py v)"

text \<open>\<^verbatim>\<open>v > n\<close> for an integer \<open>n\<close>; a Boolean compares as 0 or 1.\<close>

fun py_gt :: "json \<Rightarrow> int \<Rightarrow> py_exception + bool" where
  "py_gt (JInt m) n = Inr (m > n)"
| "py_gt (JBool b) n = Inr ((if b then 1 else 0) > n)"
| "py_gt _ n = Inl TypeError"

section \<open>Metrics, effects and the monitor\<close>

text \<open>
  A gauge holds the number last given to it. The client library stores
  \<^verbatim>\<open>float(value)\<close>; an integer is kept as it is here (the rounding and the overflow of
  integers beyond the precision and the range of a float are not modelled), and a text
  that \<^verbatim>\<open>float\<close> accepts is kept as that text.
\<close>

datatype gauge_value = Num int | FromText string

fun py_float :: "pylib \<Rightarrow> json \<Rightarrow> py_exception + gauge_value" where
  "py_float py (JInt n) = Inr (Num n)"
| "py_float py (JBool b) = Inr (Num (if b then 1 else 0))"
| "py_float py (JStr s) = (if float_text py s then Inr (FromText s) else Inl ValueError)"
| "py_float py _ = Inl TypeError"

text \<open>The three metric families of the registry; a labelled family maps label to value.\<close>

record registry =
  state_violations :: "string \<rightharpoonup> nat"
  kyc_queue_size :: gauge_value
  daily_deposits :: "string \<rightharpoonup> gauge_value"

record monitor =
  prometheus_gateway :: string
  api_base :: string
  metrics :: registry

text \<open>Everything the process sends out, in the order it happens.\<close>

datatype effect =
    HttpGet string
  | CaptureMessage string string "(string \<times> json) list"
  | CaptureException py_exception
  | Print string
  | PushToGateway string string registry
  | HttpPost string json
  | Sleep nat

record process =
  mon :: monitor
  effects :: "effect list"

text \<open>The environment variables the program reads.\<close>

record env =
  PROMETHEUS_GATEWAY :: "string option"
  API_BASE :: "string option"
  PAGERDUTY_KEY :: "string option"

text \<open>
  What the outside world answers during one cycle: the decoded body of each GET
  (\<open>Inl e\<close> when the request or the decoding raises \<open>e\<close>), whether the push and the
  paging POST raise, and the clock read for the page.
\<close>

record cycle_input =
  violations_resp :: "py_exception + json"
  kyc_resp :: "py_exception + json"
  push_result :: "py_exception option"
  integrity_resp :: "py_exception + json"
  post_result :: "py_exception option"
  utcnow :: string

text \<open>A call ends with the process it leaves and the exception it lets out, if any.\<close>

type_synonym outcome = "process \<times> py_exception option"

definition getenv :: "string option \<Rightarrow> string \<Rightarrow> string" where
  "getenv var dflt = (case var of None \<Rightarrow> dflt | Some v \<Rightarrow> v)"

definition init_monitor :: "env \<Rightarrow> monitor" where
  "init_monitor e =
     \<lparr> prometheus_gateway = getenv (PROMETHEUS_GATEWAY e) ''localhost:9091'',
       api_base = getenv (API_BASE e) ''http://localhost:8080'',
       metrics = \<lparr> state_violations = Map.empty, kyc_queue_size = Num 0,
                   daily_deposits = Map.empty \<rparr> \<rparr>"

definition start :: "env \<Rightarrow> process" where
  "start e = \<lparr> mon = init_monitor e, effects = [] \<rparr>"

definition emit :: "effect \<Rightarrow> process \<Rightarrow> process" where
  "emit x w = w\<lparr> effects := effects w @ [x] \<rparr>"

definition count_of :: "(string \<rightharpoonup> nat) \<Rightarrow> string \<Rightarrow> nat" where
  "count_of m l = (case m l of None \<Rightarrow> 0 | Some n \<Rightarrow> n)"

text \<open>\<^verbatim>\<open>self.state_violations.labels(state=l).inc()\<close>\<close>

definition inc_state :: "string \<Rightarrow> process \<Rightarrow> process" where
  "inc_state l w =
     w\<lparr> mon := (mon w)\<lparr> metrics := (metrics (mon w))
         \<lparr> state_violations := (state_violations (metrics (mon w)))(l \<mapsto> count_of (state_violations (metrics (mon w))) l + 1) \<rparr> \<rparr> \<rparr>"

text \<open>\<^verbatim>\<open>self.kyc_queue_size.set(g)\<close>, after the conversion has succeeded.\<close>

definition set_kyc :: "gauge_value \<Rightarrow> process \<Rightarrow> process" where
  "set_kyc g w =
     w\<lparr> mon := (mon w)\<lparr> metrics := (metrics (mon w))\<lparr> kyc_queue_size := g \<rparr> \<rparr> \<rparr>"

section \<open>The compliance check\<close>

text \<open>The body of the loop over the violations (source lines 57 to 69).\<close>

definition violation_step :: "pylib \<Rightarrow> json \<Rightarrow> process \<Rightarrow> outcome" where
  "violation_step py violation w =
     (case subscript violation ''type'' of
        Inl e \<Rightarrow> (w, Some e)
      | Inr t \<Rightarrow>
          if t = JStr ''STATE_RESTRICTION'' then
            (case subscript violation ''state'' of
               Inl e \<Rightarrow> (w, Some e)
             | Inr st \<Rightarrow>
                 let w1 = inc_state (py_str py st) w in
                 (case subscript violation ''user_id'' of
                    Inl e \<Rightarrow> (w1, Some e)
                  | Inr uid \<Rightarrow>
                      (case subscript violation ''timestamp'' of
                         Inl e \<Rightarrow> (w1, Some e)
                       | Inr ts \<Rightarrow>
                           (emit (CaptureMessage
                                    (''State restriction violation: '' @ py_str py st)
                                    ''error''
                                    [(''user_id'', uid), (''state'', st), (''timestamp'', ts)])
                              w1,
                            None))))
          else (w, None))"

fun for_violations :: "pylib \<Rightarrow> json list \<Rightarrow> process \<Rightarrow> outcome" where
  "for_violations py [] w = (w, None)"
| "for_violations py (v # vs) w =
     (case violation_step py v w of
        (w', Some e) \<Rightarrow> (w', Some e)
      | (w', None) \<Rightarrow> for_violations py vs w')"

definition violations_url :: "monitor \<Rightarrow> string" where
  "violations_url m = api_base m @ ''/api/v1/admin/compliance/violations''"

definition kyc_url :: "monitor \<Rightarrow> string" where
  "kyc_url m = api_base m @ ''/api/v1/admin/kyc/queue/size''"

definition integrity_url :: "monitor \<Rightarrow> string" where
  "integrity_url m = api_base m @ ''/api/v1/admin/financial/integrity''"

text \<open>The KYC queue check and the push (source lines 72 to 87).\<close>

definition kyc_and_push :: "pylib \<Rightarrow> cycle_input \<Rightarrow> process \<Rightarrow> outcome" where
  "kyc_and_push py c w =
     (let w1 = emit (HttpGet (kyc_url (mon w))) w in
      case kyc_resp c of
        Inl e \<Rightarrow> (w1, Some e)
      | Inr body \<Rightarrow>
          (case subscript body ''size'' of
             Inl e \<Rightarrow> (w1, Some e)
           | Inr queue_size \<Rightarrow>
               (case py_float py queue_size of
                  Inl e \<Rightarrow> (w1, Some e)
                | Inr g \<Rightarrow>
                    let w2 = set_kyc g w1 in
                    (case py_gt queue_size 100 of
                       Inl e \<Rightarrow> (w2, Some e)
                     | Inr big \<Rightarrow>
                         let w3 = (if big
                                   then emit (CaptureMessage
                                                (''KYC queue backlog: '' @ py_str py queue_size
                                                   @ '' cases pending'')
                                                ''warning'' [])
                                          w2
                                   else w2);
                             w4 = emit (PushToGateway (prometheus_gateway (mon w3))
                                          ''compliance_monitor'' (metrics (mon w3)))
                                    w3
                         in (w4, push_result c)))))"

text \<open>The fetch of the violations and the loop over them (source lines 53 to 69).\<close>

definition fetch_violations :: "pylib \<Rightarrow> cycle_input \<Rightarrow> process \<Rightarrow> outcome" where
  "fetch_violations py c w =
     (let w1 = emit (HttpGet (violations_url (mon w))) w in
      case violations_resp c of
        Inl e \<Rightarrow> (w1, Some e)
      | Inr violations \<Rightarrow>
          (case py_iter violations of
             Inl e \<Rightarrow> (w1, Some e)
           | Inr vs \<Rightarrow> for_violations py vs w1))"

text \<open>The body of the \<^verbatim>\<open>try\<close> of \<^verbatim>\<open>check_compliance_violations\<close>.\<close>

definition compliance_try :: "pylib \<Rightarrow> cycle_input \<Rightarrow> process \<Rightarrow> outcome" where
  "compliance_try py c w =
     (case fetch_violations py c w of
        (w2, Some e) \<Rightarrow> (w2, Some e)
      | (w2, None) \<Rightarrow> kyc_and_push py c w2)"

definition check_compliance_violations :: "pylib \<Rightarrow> cycle_input \<Rightarrow> process \<Rightarrow> outcome" where
  "check_compliance_violations py c w =
     (case compliance_try py c w of
        (w', None) \<Rightarrow> (w', None)
      | (w', Some e) \<Rightarrow>
          (emit (Print (''Error in compliance check: '' @ exc_str py e))
             (emit (CaptureException e) w'),
           None))"

section \<open>The financial integrity check and the page\<close>

definition trigger_pagerduty_alert ::
  "env \<Rightarrow> cycle_input \<Rightarrow> string \<Rightarrow> string \<Rightarrow> process \<Rightarrow> outcome" where
  "trigger_pagerduty_alert e c title message w =
     (case PAGERDUTY_KEY e of
        None \<Rightarrow> (w, None)
      | Some pagerduty_key \<Rightarrow>
          if pagerduty_key \<noteq> [] then
            (emit (HttpPost ''https://events.pagerduty.com/v2/enqueue''
                     (JObj [(''routing_key'', JStr pagerduty_key),
                            (''event_action'', JStr ''trigger''),
                            (''payload'', JObj
                               [(''summary'', JStr title),
                                (''source'', JStr ''luckxpress-monitor''),
                                (''severity'', JStr ''critical''),
                                (''custom_details'', JObj
                                   [(''message'', JStr message),
                                    (''timestamp'', JStr (utcnow c))])])]))
               w,
             post_result c)
          else (w, None))"

text \<open>The body of the \<^verbatim>\<open>try\<close> of \<^verbatim>\<open>check_financial_integrity\<close>.\<close>

definition integrity_try :: "pylib \<Rightarrow> env \<Rightarrow> cycle_input \<Rightarrow> process \<Rightarrow> outcome" where
  "integrity_try py e c w =
     (let w1 = emit (HttpGet (integrity_url (mon w))) w in
      case integrity_resp c of
        Inl x \<Rightarrow> (w1, Some x)
      | Inr integrity \<Rightarrow>
          (case subscript integrity ''balanced'' of
             Inl x \<Rightarrow> (w1, Some x)
           | Inr balanced \<Rightarrow>
               if \<not> truthy balanced then
                 (case subscript integrity ''imbalance'' of
                    Inl x \<Rightarrow> (w1, Some x)
                  | Inr imbalance \<Rightarrow>
                      (case subscript integrity ''affected_users'' of
                         Inl x \<Rightarrow> (w1, Some x)
                       | Inr affected_users \<Rightarrow>
                           trigger_pagerduty_alert e c ''Ledger Imbalance''
                             (''Imbalance of '' @ py_str py imbalance @ '' detected'')
                             (emit (CaptureMessage ''CRITICAL: Ledger imbalance detected''
                                      ''fatal''
                                      [(''imbalance_amount'', imbalance),
                                       (''affected_users'', affected_users)])
                                w1)))
               else (w1, None)))"

definition check_financial_integrity :: "pylib \<Rightarrow> env \<Rightarrow> cycle_input \<Rightarrow> process \<Rightarrow> outcome" where
  "check_financial_integrity py e c w =
     (case integrity_try py e c w of
        (w', None) \<Rightarrow> (w', None)
      | (w', Some x) \<Rightarrow> (emit (CaptureException x) w', None))"

section \<open>The polling loop\<close>

text \<open>
  The loop \<^verbatim>\<open>while True\<close> never ends by itself. \<open>main_loop\<close> runs it for the cycles
  whose answers are given and returns the process reached, or stops at the first call
  that lets an exception out.
\<close>

text \<open>The two checks of one pass through the loop (source lines 146 and 147).\<close>

definition loop_body :: "pylib \<Rightarrow> env \<Rightarrow> cycle_input \<Rightarrow> process \<Rightarrow> outcome" where
  "loop_body py e c w =
     (case check_compliance_violations py c w of
        (w1, Some x) \<Rightarrow> (w1, Some x)
      | (w1, None) \<Rightarrow> check_financial_integrity py e c w1)"

fun main_loop :: "pylib \<Rightarrow> env \<Rightarrow> cycle_input list \<Rightarrow> process \<Rightarrow> outcome" where
  "main_loop py e [] w = (w, None)"
| "main_loop py e (c # cs) w =
     (case loop_body py e c w of
        (w2, Some x) \<Rightarrow> (w2, Some x)
      | (w2, None) \<Rightarrow> main_loop py e cs (emit (Sleep 60) w2))"

section \<open>Observing a call\<close>

text \<open>The effects a call adds, given the process before it and the process after it.\<close>

definition emitted :: "process \<Rightarrow> process \<Rightarrow> effect list" where
  "emitted w w' = drop (length (effects w)) (effects w')"

fun is_message :: "string \<Rightarrow> effect \<Rightarrow> bool" where
  "is_message lvl (CaptureMessage m l ex) = (l = lvl)"
| "is_message lvl _ = False"

fun is_report :: "effect \<Rightarrow> bool" where
  "is_report (CaptureException x) = True"
| "is_report _ = False"

fun is_push :: "effect \<Rightarrow> bool" where
  "is_push (PushToGateway g j r) = True"
| "is_push _ = False"

fun is_post :: "effect \<Rightarrow> bool" where
  "is_post (HttpPost u b) = True"
| "is_post _ = False"

fun is_print :: "effect \<Rightarrow> bool" where
  "is_print (Print s) = True"
| "is_print _ = False"

fun is_notification :: "effect \<Rightarrow> bool" where
  "is_notification (CaptureMessage m l ex) = True"
| "is_notification _ = False"

text \<open>What the loop over the violations never touches.\<close>

definition same_config :: "process \<Rightarrow> process \<Rightarrow> bool" where
  "same_config w w' =
     (api_base (mon w') = api_base (mon w)
      \<and> prometheus_gateway (mon w') = prometheus_gateway (mon w)
      \<and> kyc_queue_size (metrics (mon w')) = kyc_queue_size (metrics (mon w))
      \<and> daily_deposits (metrics (mon w')) = daily_deposits (metrics (mon w)))"

text \<open>The violation counter of a process, read at one label.\<close>

definition violations_at :: "process \<Rightarrow> string \<Rightarrow> nat" where
  "violations_at w l = count_of (state_violations (metrics (mon w))) l"

text \<open>Shape of a violation entry.\<close>

definition has_key :: "json \<Rightarrow> string \<Rightarrow> bool" where
  "has_key v k = (case subscript v k of Inl e \<Rightarrow> False | Inr x \<Rightarrow> True)"

definition field :: "json \<Rightarrow> string \<Rightarrow> json" where
  "field v k = (case subscript v k of Inl e \<Rightarrow> JNull | Inr x \<Rightarrow> x)"

definition is_state_restriction :: "json \<Rightarrow> bool" where
  "is_state_restriction v = (subscript v ''type'' = Inr (JStr ''STATE_RESTRICTION''))"

definition complete_entry :: "json \<Rightarrow> bool" where
  "complete_entry v =
     (has_key v ''type'' \<and>
      (if is_state_restriction v
       then has_key v ''state'' \<and> has_key v ''user_id'' \<and> has_key v ''timestamp''
       else True))"

text \<open>The notification the loop sends for a state-restriction entry, and its label.\<close>

definition notification :: "pylib \<Rightarrow> json \<Rightarrow> effect" where
  "notification py v =
     CaptureMessage (''State restriction violation: '' @ py_str py (field v ''state''))
       ''error''
       [(''user_id'', field v ''user_id''), (''state'', field v ''state''),
        (''timestamp'', field v ''timestamp'')]"

definition label_of :: "pylib \<Rightarrow> json \<Rightarrow> string" where
  "label_of py v = py_str py (field v ''state'')"

text \<open>Whether \<^verbatim>\<open>PAGERDUTY_KEY\<close> is set to a non-empty text, as \<^verbatim>\<open>if pagerduty_key\<close> tests.\<close>

definition key_configured :: "env \<Rightarrow> bool" where
  "key_configured e = (case PAGERDUTY_KEY e of None \<Rightarrow> False | Some k \<Rightarrow> k \<noteq> [])"

text \<open>The notification of a ledger imbalance and the message of its page.\<close>

definition fatal_notification :: "json \<Rightarrow> json \<Rightarrow> effect" where
  "fatal_notification imbalance affected_users =
     CaptureMessage ''CRITICAL: Ledger imbalance detected'' ''fatal''
       [(''imbalance_amount'', imbalance), (''affected_users'', affected_users)]"

definition page_message :: "pylib \<Rightarrow> json \<Rightarrow> string" where
  "page_message py imbalance = ''Imbalance of '' @ py_str py imbalance @ '' detected''"

text \<open>An integrity report that is not balanced and has both of its other fields.\<close>

definition unbalanced_report :: json where
  "unbalanced_report =
     JObj [(''balanced'', JBool False), (''imbalance'', JInt 250),
           (''affected_users'', JList [JStr ''u1'', JStr ''u2''])]"

text \<open>The first of the three fields of a state-restriction entry that is missing.\<close>

definition missing_key :: "json \<Rightarrow> string" where
  "missing_key v =
     (if \<not> has_key v ''state'' then ''state''
      else if \<not> has_key v ''user_id'' then ''user_id''
      else ''timestamp'')"

text \<open>
  The labels whose counter one run of the loop increments, in order: the loop counts a
  state-restriction entry as soon as its state is read, and stops at the first entry
  that raises.
\<close>

fun counted :: "pylib \<Rightarrow> json list \<Rightarrow> string list" where
  "counted py [] = []"
| "counted py (v # vs) =
     (if \<not> has_key v ''type'' then []
      else if \<not> is_state_restriction v then counted py vs
      else if \<not> has_key v ''state'' then []
      else label_of py v #
        (if has_key v ''user_id'' \<and> has_key v ''timestamp'' then counted py vs else []))"

definition cycle_counted :: "pylib \<Rightarrow> cycle_input \<Rightarrow> string list" where
  "cycle_counted py c =
     (case violations_resp c of
        Inl x \<Rightarrow> []
      | Inr violations \<Rightarrow>
          (case py_iter violations of Inl x \<Rightarrow> [] | Inr vs \<Rightarrow> counted py vs))"

section \<open>Sample inputs\<close>

text \<open>A Python runtime, an environment and the answers of one cycle, used to run the
  definitions on concrete inputs.\<close>

definition sample_py :: pylib where
  "sample_py = \<lparr> py_repr = (\<lambda>v. ''[...]''), float_text = (\<lambda>s. False),
                 exc_str = (\<lambda>x. ''error'') \<rparr>"

definition sample_env :: env where
  "sample_env = \<lparr> PROMETHEUS_GATEWAY = None, API_BASE = None, PAGERDUTY_KEY = Some ''key'' \<rparr>"

definition quiet_cycle :: cycle_input where
  "quiet_cycle =
     \<lparr> violations_resp = Inr (JList []),
       kyc_resp = Inr (JObj [(''size'', JInt 50)]),
       push_result = None,
       integrity_resp = Inr (JObj [(''balanced'', JBool True)]),
       post_result = None,
       utcnow = ''2024-01-01T00:00:00'' \<rparr>"

definition tx_entry :: json where
  "tx_entry = JObj [(''type'', JStr ''STATE_RESTRICTION''), (''state'', JStr ''TX''),
                    (''user_id'', JStr ''u1''), (''timestamp'', JStr ''T'')]"

section \<open>Basic facts about the state operations\<close>

lemma effects_emit [simp]: "effects (emit x w) = effects w @ [x]"
  by (simp add: emit_def)

lemma mon_emit [simp]: "mon (emit x w) = mon w"
  by (simp add: emit_def)

lemma effects_inc_state [simp]: "effects (inc_state l w) = effects w"
  by (simp add: inc_state_def)

lemma effects_set_kyc [simp]: "effects (set_kyc g w) = effects w"
  by (simp add: set_kyc_def)

lemma violations_at_emit [simp]: "violations_at (emit x w) l = violations_at w l"
  by (simp add: violations_at_def)

lemma violations_at_set_kyc [simp]: "violations_at (set_kyc g w) l = violations_at w l"
  by (simp add: violations_at_def set_kyc_def)

lemma violations_at_inc_state [simp]:
  "violations_at (inc_state k w) l = violations_at w l + (if l = k then 1 else 0)"
  by (simp add: violations_at_def inc_state_def count_of_def)

lemma emitted_append [simp]: "effects w' = effects w @ es \<Longrightarrow> emitted w w' = es"
  by (simp add: emitted_def)

section \<open>The type filter of the loop\<close>

text \<open>
  Claim C10. An entry of the violations list whose \<^verbatim>\<open>type\<close> field is not
  \<^verbatim>\<open>STATE_RESTRICTION\<close> has no effect: processing it leaves the whole process as it was
  (every metric, every emitted notification) and raises nothing, whatever its other
  fields are.
\<close>

theorem other_type_no_effect:
  assumes "subscript v ''type'' = Inr t" and "t \<noteq> JStr ''STATE_RESTRICTION''"
  shows "violation_step py v w = (w, None)"
  using assms by (simp add: violation_step_def)

theorem other_type_no_effect_witness:
  "subscript (JObj [(''type'', JStr ''DEPOSIT_LIMIT''), (''state'', JInt 7)]) ''type''
     = Inr (JStr ''DEPOSIT_LIMIT'')
   \<and> JStr ''DEPOSIT_LIMIT'' \<noteq> JStr ''STATE_RESTRICTION''
   \<and> violation_step sample_py (JObj [(''type'', JStr ''DEPOSIT_LIMIT''), (''state'', JInt 7)])
       (start sample_env) = (start sample_env, None)"
  using other_type_no_effect [of "JObj [(''type'', JStr ''DEPOSIT_LIMIT''), (''state'', JInt 7)]"
      "JStr ''DEPOSIT_LIMIT''" sample_py "start sample_env"]
  by simp

section \<open>One cycle from a fresh monitor\<close>

text \<open>
  Claim C8. From a fresh monitor, with a violations response of the single
  state-restriction entry for TX (user u1, timestamp T), a queue size of 50 and a
  balanced integrity response, one pass through the loop sends exactly one error-level
  notification, no warning, no fatal notification, and makes exactly one push, in which
  the violation counter is 1 at TX and nowhere else, and the queue-size gauge is 50.
  This holds whatever the environment, the outcome of the push and the other answers are.
\<close>

theorem end_to_end_cycle:
  fixes c :: cycle_input
  defines "c' \<equiv> c\<lparr> violations_resp := Inr (JList [tx_entry]),
                    kyc_resp := Inr (JObj [(''size'', JInt 50)]),
                    integrity_resp := Inr (JObj [(''balanced'', JBool True)]) \<rparr>"
  shows "filter (is_message ''error'') (effects (fst (loop_body py e c' (start e)))) =
           [CaptureMessage ''State restriction violation: TX'' ''error''
              [(''user_id'', JStr ''u1''), (''state'', JStr ''TX''), (''timestamp'', JStr ''T'')]]
       \<and> filter (is_message ''warning'') (effects (fst (loop_body py e c' (start e)))) = []
       \<and> filter (is_message ''fatal'') (effects (fst (loop_body py e c' (start e)))) = []
       \<and> filter is_push (effects (fst (loop_body py e c' (start e)))) =
           [PushToGateway (getenv (PROMETHEUS_GATEWAY e) ''localhost:9091'') ''compliance_monitor''
              \<lparr> state_violations = [''TX'' \<mapsto> 1], kyc_queue_size = Num 50,
                daily_deposits = Map.empty \<rparr>]"
  unfolding c'_def tx_entry_def
  by (cases "push_result c")
     (simp_all add: loop_body_def check_compliance_violations_def compliance_try_def
        kyc_and_push_def fetch_violations_def violation_step_def check_financial_integrity_def integrity_try_def
        start_def init_monitor_def py_str_def inc_state_def set_kyc_def count_of_def Let_def)


section \<open>The loop over the violations\<close>

lemma same_config_refl [simp]: "same_config w w"
  by (simp add: same_config_def)

lemma same_config_emit [simp]: "same_config w (emit x w') = same_config w w'"
  by (simp add: same_config_def)

lemma same_config_inc_state [simp]: "same_config w (inc_state l w') = same_config w w'"
  by (simp add: same_config_def inc_state_def)

lemma violation_step_complete:
  assumes "complete_entry v"
  shows "violation_step py v w =
           (if is_state_restriction v
            then emit (notification py v) (inc_state (label_of py v) w) else w, None)"
  using assms
  by (auto simp: complete_entry_def violation_step_def is_state_restriction_def has_key_def
        notification_def label_of_def field_def Let_def split: sum.splits)

lemma violation_step_shape:
  "\<exists>es. effects (fst (violation_step py v w)) = effects w @ es
        \<and> list_all (is_message ''error'') es
        \<and> same_config w (fst (violation_step py v w))
        \<and> (\<forall>l. violations_at w l \<le> violations_at (fst (violation_step py v w)) l)"
  by (auto simp: violation_step_def Let_def split: sum.splits)

lemma for_violations_shape:
  "\<exists>es. effects (fst (for_violations py vs w)) = effects w @ es
        \<and> list_all (is_message ''error'') es
        \<and> same_config w (fst (for_violations py vs w))
        \<and> (\<forall>l. violations_at w l \<le> violations_at (fst (for_violations py vs w)) l)"
proof (induction vs arbitrary: w)
  case Nil
  show ?case by simp
next
  case (Cons v vs)
  obtain w1 r where step: "violation_step py v w = (w1, r)"
    by (cases "violation_step py v w")
  from violation_step_shape [of py v w] step obtain es1 where
    s1: "effects w1 = effects w @ es1" "list_all (is_message ''error'') es1"
        "same_config w w1" "\<forall>l. violations_at w l \<le> violations_at w1 l"
    by auto
  show ?case
  proof (cases r)
    case (Some x)
    with step s1 show ?thesis by auto
  next
    case None
    from Cons.IH [of w1] obtain es2 where
      s2: "effects (fst (for_violations py vs w1)) = effects w1 @ es2"
          "list_all (is_message ''error'') es2"
          "same_config w1 (fst (for_violations py vs w1))"
          "\<forall>l. violations_at w1 l \<le> violations_at (fst (for_violations py vs w1)) l"
      by auto
    have "effects (fst (for_violations py (v # vs) w)) = effects w @ (es1 @ es2)"
      using step None s1 s2 by simp
    moreover have "list_all (is_message ''error'') (es1 @ es2)"
      using s1 s2 by simp
    moreover have "same_config w (fst (for_violations py (v # vs) w))"
      using step None s1 s2 by (simp add: same_config_def)
    moreover have "\<forall>l. violations_at w l \<le> violations_at (fst (for_violations py (v # vs) w)) l"
      using step None s1 s2 by (auto intro: le_trans)
    ultimately show ?thesis by blast
  qed
qed

lemma for_violations_complete:
  assumes "list_all complete_entry vs"
  shows "snd (for_violations py vs w) = None
       \<and> effects (fst (for_violations py vs w))
           = effects w @ map (notification py) (filter is_state_restriction vs)
       \<and> (\<forall>l. violations_at (fst (for_violations py vs w)) l
             = violations_at w l
               + count_list (map (label_of py) (filter is_state_restriction vs)) l)"
  using assms
proof (induction vs arbitrary: w)
  case Nil
  show ?case by simp
next
  case (Cons v vs)
  then have v: "complete_entry v" and vs: "list_all complete_entry vs" by simp_all
  show ?case
    using Cons.IH [OF vs] by (simp add: violation_step_complete [OF v])
qed


lemma violations_url_neq_kyc_url [simp]: "violations_url m \<noteq> kyc_url m" "kyc_url m \<noteq> violations_url m"
  by (simp_all add: violations_url_def kyc_url_def)

lemma fetch_violations_shape:
  "\<exists>es. effects (fst (fetch_violations py c w)) = effects w @ HttpGet (violations_url (mon w)) # es
        \<and> list_all (is_message ''error'') es
        \<and> same_config w (fst (fetch_violations py c w))
        \<and> (\<forall>l. violations_at w l \<le> violations_at (fst (fetch_violations py c w)) l)"
proof (cases "violations_resp c")
  case (Inl x)
  then show ?thesis by (simp add: fetch_violations_def)
next
  case (Inr violations)
  show ?thesis
  proof (cases "py_iter violations")
    case (Inl x)
    with Inr show ?thesis by (simp add: fetch_violations_def)
  next
    case inner: (Inr vs)
    from for_violations_shape [of py vs "emit (HttpGet (violations_url (mon w))) w"]
    show ?thesis using Inr inner by (auto simp: fetch_violations_def same_config_def)
  qed
qed

lemma kyc_and_push_integer:
  assumes "kyc_resp c = Inr body" and "subscript body ''size'' = Inr (JInt n)"
  shows "kyc_and_push py c w =
     (emit (PushToGateway (prometheus_gateway (mon w)) ''compliance_monitor''
              ((metrics (mon w))\<lparr> kyc_queue_size := Num n \<rparr>))
        ((if n > 100
          then emit (CaptureMessage (''KYC queue backlog: '' @ str_int n @ '' cases pending'')
                       ''warning'' [])
          else id)
           (set_kyc (Num n) (emit (HttpGet (kyc_url (mon w))) w))),
      push_result c)"
  using assms by (simp add: kyc_and_push_def Let_def py_str_def set_kyc_def)

lemma config_set_kyc [simp]:
  "api_base (mon (set_kyc g w)) = api_base (mon w)"
  "prometheus_gateway (mon (set_kyc g w)) = prometheus_gateway (mon w)"
  "kyc_queue_size (metrics (mon (set_kyc g w))) = g"
  by (simp_all add: set_kyc_def)

lemma kyc_and_push_shape:
  "\<exists>es. effects (fst (kyc_and_push py c w)) = effects w @ HttpGet (kyc_url (mon w)) # es
        \<and> list_all (\<lambda>x. is_message ''warning'' x \<or> is_push x) es
        \<and> api_base (mon (fst (kyc_and_push py c w))) = api_base (mon w)
        \<and> (\<forall>l. violations_at (fst (kyc_and_push py c w)) l = violations_at w l)"
  by (auto simp: kyc_and_push_def Let_def split: sum.splits)


section \<open>The KYC queue check\<close>






section \<open>The error boundary of the compliance check\<close>

lemma list_all_error_quiet:
  "list_all (is_message ''error'') es \<Longrightarrow>
     filter is_report es = [] \<and> filter is_print es = [] \<and> filter is_push es = []"
  by (induction es) (auto elim: is_message.elims)

lemma list_all_kyc_quiet:
  "list_all (\<lambda>x. is_message ''warning'' x \<or> is_push x) es \<Longrightarrow>
     filter is_report es = [] \<and> filter is_print es = [] \<and> filter (is_message ''error'') es = []"
  by (induction es) (auto elim: is_message.elims is_push.elims)


lemma check_compliance_returns: "snd (check_compliance_violations py c w) = None"
  by (simp add: check_compliance_violations_def split: prod.splits option.splits)

lemma check_financial_returns: "snd (check_financial_integrity py e c w) = None"
  by (simp add: check_financial_integrity_def split: prod.splits option.splits)

lemma loop_body_eq:
  "loop_body py e c w =
     (fst (check_financial_integrity py e c (fst (check_compliance_violations py c w))), None)"
proof -
  obtain w1 where a: "check_compliance_violations py c w = (w1, None)"
    using check_compliance_returns [of py c w]
    by (cases "check_compliance_violations py c w") simp
  obtain w2 where b: "check_financial_integrity py e c w1 = (w2, None)"
    using check_financial_returns [of py e c w1]
    by (cases "check_financial_integrity py e c w1") simp
  show ?thesis using a b by (simp add: loop_body_def)
qed

lemma trigger_shape:
  "\<exists>es. effects (fst (trigger_pagerduty_alert e c t m w)) = effects w @ es
        \<and> list_all is_post es \<and> mon (fst (trigger_pagerduty_alert e c t m w)) = mon w"
  by (auto simp: trigger_pagerduty_alert_def split: option.splits)

lemma integrity_try_shape:
  "\<exists>es. effects (fst (integrity_try py e c w)) = effects w @ HttpGet (integrity_url (mon w)) # es
        \<and> list_all (\<lambda>x. is_message ''fatal'' x \<or> is_post x) es
        \<and> mon (fst (integrity_try py e c w)) = mon w"
proof -
  have triv: "\<exists>es. effects (emit (HttpGet (integrity_url (mon w))) w)
                 = effects w @ HttpGet (integrity_url (mon w)) # es
               \<and> list_all (\<lambda>x. is_message ''fatal'' x \<or> is_post x) es
               \<and> mon (emit (HttpGet (integrity_url (mon w))) w) = mon w"
    by simp
  have trig: "\<exists>es. effects (fst (trigger_pagerduty_alert e c t m (emit (CaptureMessage a ''fatal'' b) (emit (HttpGet (integrity_url (mon w))) w))))
                 = effects w @ HttpGet (integrity_url (mon w)) # es
               \<and> list_all (\<lambda>x. is_message ''fatal'' x \<or> is_post x) es
               \<and> mon (fst (trigger_pagerduty_alert e c t m (emit (CaptureMessage a ''fatal'' b) (emit (HttpGet (integrity_url (mon w))) w)))) = mon w"
    for t m a b
  proof -
    from trigger_shape [of e c t m "emit (CaptureMessage a ''fatal'' b) (emit (HttpGet (integrity_url (mon w))) w)"]
    obtain es where es: "effects (fst (trigger_pagerduty_alert e c t m (emit (CaptureMessage a ''fatal'' b) (emit (HttpGet (integrity_url (mon w))) w))))
        = effects (emit (CaptureMessage a ''fatal'' b) (emit (HttpGet (integrity_url (mon w))) w)) @ es"
      "list_all is_post es"
      "mon (fst (trigger_pagerduty_alert e c t m (emit (CaptureMessage a ''fatal'' b) (emit (HttpGet (integrity_url (mon w))) w)))) = mon w"
      by auto
    have "list_all (\<lambda>x. is_message ''fatal'' x \<or> is_post x) (CaptureMessage a ''fatal'' b # es)"
      using es(2) by (simp add: list_all_iff)
    with es show ?thesis by auto
  qed
  show ?thesis
    unfolding integrity_try_def Let_def
    using triv trig by (simp split: sum.splits)
qed

lemma check_financial_shape:
  "\<exists>es. effects (fst (check_financial_integrity py e c w))
          = effects w @ HttpGet (integrity_url (mon w)) # es
        \<and> mon (fst (check_financial_integrity py e c w)) = mon w"
proof -
  obtain w' r where it: "integrity_try py e c w = (w', r)"
    by (cases "integrity_try py e c w")
  from integrity_try_shape [of py e c w] it obtain es where
    "effects w' = effects w @ HttpGet (integrity_url (mon w)) # es" "mon w' = mon w"
    by auto
  then show ?thesis
    using it by (cases r) (simp_all add: check_financial_integrity_def)
qed

text \<open>
  An exception raised by the violations fetch, by the KYC fetch or by the push is an
  exception raised inside the \<^verbatim>\<open>try\<close> block.
\<close>

lemma violations_fetch_raises:
  "violations_resp c = Inl x \<Longrightarrow> snd (compliance_try py c w) = Some x"
  by (simp add: compliance_try_def fetch_violations_def)

lemma kyc_fetch_raises:
  "snd (fetch_violations py c w) = None \<Longrightarrow> kyc_resp c = Inl x \<Longrightarrow>
     snd (compliance_try py c w) = Some x"
  by (cases "fetch_violations py c w") (simp add: compliance_try_def kyc_and_push_def)

lemma push_raises:
  "snd (fetch_violations py c w) = None \<Longrightarrow> kyc_resp c = Inr body \<Longrightarrow>
   subscript body ''size'' = Inr (JInt n) \<Longrightarrow> push_result c = Some x \<Longrightarrow>
     snd (compliance_try py c w) = Some x"
  by (cases "fetch_violations py c w")
     (simp add: compliance_try_def kyc_and_push_integer)




section \<open>Notifications and counter for a list of violations\<close>

lemma check_compliance_tail:
  "\<exists>es. effects (fst (check_compliance_violations py c w))
           = effects (fst (fetch_violations py c w)) @ es
        \<and> filter (is_message ''error'') es = []
        \<and> (\<forall>l. violations_at (fst (check_compliance_violations py c w)) l
               = violations_at (fst (fetch_violations py c w)) l)"
proof -
  obtain w2 r where fv: "fetch_violations py c w = (w2, r)"
    by (cases "fetch_violations py c w")
  show ?thesis
  proof (cases r)
    case (Some x)
    then show ?thesis
      using fv by (simp add: check_compliance_violations_def compliance_try_def)
  next
    case None
    obtain w3 r3 where kp: "kyc_and_push py c w2 = (w3, r3)"
      by (cases "kyc_and_push py c w2")
    from kyc_and_push_shape [of py c w2] kp obtain es2 where
      es2: "effects w3 = effects w2 @ HttpGet (kyc_url (mon w2)) # es2"
           "list_all (\<lambda>x. is_message ''warning'' x \<or> is_push x) es2"
           "\<forall>l. violations_at w3 l = violations_at w2 l"
      by auto
    show ?thesis
      using fv None kp es2 list_all_kyc_quiet [OF es2(2)]
      by (cases r3) (simp_all add: check_compliance_violations_def compliance_try_def)
  qed
qed

lemma sum_count_list_labels: "(\<Sum>l\<in>set ls. count_list ls l) = length ls"
  by (rule sum_count_set) simp_all

text \<open>
  Claim C1, as amended. For every violations response that decodes to a list in which
  every entry is an object with a \<^verbatim>\<open>type\<close> field and every entry of type
  \<^verbatim>\<open>STATE_RESTRICTION\<close> also has the fields \<^verbatim>\<open>state\<close>, \<^verbatim>\<open>user_id\<close> and
  \<^verbatim>\<open>timestamp\<close>, one call of \<^verbatim>\<open>check_compliance_violations\<close> sends exactly one
  error-level notification per state-restriction entry, in order, each with that entry's
  user id, state and timestamp as extras; and the counter of each label grows by the
  number of state-restriction entries with that label, \<open>N\<close> increments in all.
\<close>

theorem complete_violations_notified:
  assumes resp: "violations_resp c = Inr (JList vs)"
    and complete: "list_all complete_entry vs"
  shows "filter (is_message ''error'') (emitted w (fst (check_compliance_violations py c w)))
           = map (notification py) (filter is_state_restriction vs)
       \<and> length (filter (is_message ''error'')
                   (emitted w (fst (check_compliance_violations py c w))))
           = length (filter is_state_restriction vs)
       \<and> (\<forall>l. violations_at (fst (check_compliance_violations py c w)) l
             = violations_at w l
               + count_list (map (label_of py) (filter is_state_restriction vs)) l)
       \<and> (\<Sum>l\<in>set (map (label_of py) (filter is_state_restriction vs)).
             count_list (map (label_of py) (filter is_state_restriction vs)) l)
           = length (filter is_state_restriction vs)"
proof -
  let ?w0 = "emit (HttpGet (violations_url (mon w))) w"
  let ?ns = "map (notification py) (filter is_state_restriction vs)"
  have fv: "fetch_violations py c w = for_violations py vs ?w0"
    using resp by (simp add: fetch_violations_def)
  from for_violations_complete [OF complete, of py ?w0] have
    f1: "effects (fst (for_violations py vs ?w0)) = effects ?w0 @ ?ns"
    and f2: "\<forall>l. violations_at (fst (for_violations py vs ?w0)) l
              = violations_at ?w0 l
                + count_list (map (label_of py) (filter is_state_restriction vs)) l"
    by simp_all
  from check_compliance_tail [of py c w] obtain es where
    es: "effects (fst (check_compliance_violations py c w))
           = effects (fst (fetch_violations py c w)) @ es"
        "filter (is_message ''error'') es = []"
        "\<forall>l. violations_at (fst (check_compliance_violations py c w)) l
               = violations_at (fst (fetch_violations py c w)) l"
    by auto
  have "effects (fst (check_compliance_violations py c w))
          = effects w @ (HttpGet (violations_url (mon w)) # ?ns @ es)"
    using es(1) fv f1 by simp
  then have em: "emitted w (fst (check_compliance_violations py c w))
          = HttpGet (violations_url (mon w)) # ?ns @ es"
    by (rule emitted_append)
  have all_err: "filter (is_message ''error'') ?ns = ?ns"
    by (simp add: notification_def filter_map comp_def)
  have a: "filter (is_message ''error'') (emitted w (fst (check_compliance_violations py c w)))
             = ?ns"
    using em es(2) all_err by simp
  have b: "\<forall>l. violations_at (fst (check_compliance_violations py c w)) l
             = violations_at w l
               + count_list (map (label_of py) (filter is_state_restriction vs)) l"
    using es(3) fv f2 by simp
  show ?thesis
    using a b sum_count_list_labels [of "map (label_of py) (filter is_state_restriction vs)"]
    by simp
qed

theorem complete_violations_notified_witness:
  "list_all complete_entry [JObj [(''type'', JStr ''KYC_EXPIRED'')], tx_entry, tx_entry]
   \<and> length (filter (is_message ''error'')
        (emitted (start sample_env)
           (fst (check_compliance_violations sample_py
              (quiet_cycle\<lparr> violations_resp :=
                 Inr (JList [JObj [(''type'', JStr ''KYC_EXPIRED'')], tx_entry, tx_entry]) \<rparr>)
              (start sample_env))))) = 2
   \<and> violations_at
        (fst (check_compliance_violations sample_py
              (quiet_cycle\<lparr> violations_resp :=
                 Inr (JList [JObj [(''type'', JStr ''KYC_EXPIRED'')], tx_entry, tx_entry]) \<rparr>)
              (start sample_env))) ''TX'' = 2"
proof -
  have ok: "list_all complete_entry [JObj [(''type'', JStr ''KYC_EXPIRED'')], tx_entry, tx_entry]"
    by (simp add: complete_entry_def has_key_def is_state_restriction_def tx_entry_def)
  have sr: "filter is_state_restriction
              [JObj [(''type'', JStr ''KYC_EXPIRED'')], tx_entry, tx_entry] = [tx_entry, tx_entry]"
    by (simp add: is_state_restriction_def tx_entry_def)
  have lbl: "label_of sample_py tx_entry = ''TX''"
    by (simp add: label_of_def field_def tx_entry_def py_str_def)
  have z: "violations_at (start sample_env) ''TX'' = 0"
    by (simp add: violations_at_def start_def init_monitor_def count_of_def)
  have resp: "violations_resp (quiet_cycle\<lparr> violations_resp :=
           Inr (JList [JObj [(''type'', JStr ''KYC_EXPIRED'')], tx_entry, tx_entry]) \<rparr>)
         = Inr (JList [JObj [(''type'', JStr ''KYC_EXPIRED'')], tx_entry, tx_entry])"
    by simp
  show ?thesis
    using ok complete_violations_notified [OF resp ok, of "start sample_env" sample_py]
    unfolding sr
    by (simp add: lbl z)
qed

text \<open>
  The claim as first stated, for every list with \<open>N\<close> state-restriction entries, fails
  when an entry is incomplete: an entry without a \<^verbatim>\<open>type\<close> field in front of a
  complete TX entry stops the loop, so that \<open>N = 1\<close> but no notification is sent and
  the counter of TX stays at 0.
\<close>

theorem incomplete_entry_counterexample:
  "length (filter is_state_restriction [JObj [(''state'', JStr ''TX'')], tx_entry]) = 1
   \<and> filter (is_message ''error'')
        (emitted (start sample_env)
           (fst (check_compliance_violations sample_py
              (quiet_cycle\<lparr> violations_resp :=
                 Inr (JList [JObj [(''state'', JStr ''TX'')], tx_entry]) \<rparr>)
              (start sample_env)))) = []
   \<and> violations_at
        (fst (check_compliance_violations sample_py
              (quiet_cycle\<lparr> violations_resp :=
                 Inr (JList [JObj [(''state'', JStr ''TX'')], tx_entry]) \<rparr>)
              (start sample_env))) ''TX'' = 0"
  by (simp add: is_state_restriction_def tx_entry_def emitted_def check_compliance_violations_def
        compliance_try_def fetch_violations_def violation_step_def start_def init_monitor_def
        violations_at_def count_of_def quiet_cycle_def)


section \<open>An incomplete state-restriction entry\<close>

lemma for_violations_append:
  "for_violations py (xs @ ys) w =
     (case for_violations py xs w of
        (w', Some x) \<Rightarrow> (w', Some x)
      | (w', None) \<Rightarrow> for_violations py ys w')"
  by (induction xs arbitrary: w) (auto split: prod.splits option.splits)

lemma missing_field_raises:
  assumes "is_state_restriction v" and "\<not> has_key v k"
  shows "subscript v k = Inl (KeyError k)"
  using assms
  by (cases v) (auto simp: is_state_restriction_def has_key_def split: option.splits)

lemma violation_step_incomplete:
  assumes sr: "is_state_restriction v"
    and miss: "\<not> (has_key v ''state'' \<and> has_key v ''user_id'' \<and> has_key v ''timestamp'')"
  shows "violation_step py v w =
           (if has_key v ''state'' then inc_state (label_of py v) w else w,
            Some (KeyError (missing_key v)))"
proof (cases "has_key v ''state''")
  case False
  then show ?thesis
    using sr missing_field_raises [OF sr False]
    by (simp add: violation_step_def is_state_restriction_def missing_key_def)
next
  case st: True
  then obtain s where s: "subscript v ''state'' = Inr s"
    by (auto simp: has_key_def split: sum.splits)
  show ?thesis
  proof (cases "has_key v ''user_id''")
    case False
    then show ?thesis
      using sr st s missing_field_raises [OF sr False]
      by (simp add: violation_step_def is_state_restriction_def missing_key_def
            label_of_def field_def Let_def)
  next
    case u: True
    then obtain uid where uid: "subscript v ''user_id'' = Inr uid"
      by (auto simp: has_key_def split: sum.splits)
    from miss st u have ts: "\<not> has_key v ''timestamp''" by simp
    show ?thesis
      using sr st s u uid ts missing_field_raises [OF sr ts]
      by (simp add: violation_step_def is_state_restriction_def missing_key_def
            label_of_def field_def Let_def)
  qed
qed

lemma list_all_error_no_kyc:
  "list_all (is_message ''error'') es \<Longrightarrow> HttpGet u \<notin> set es"
  by (induction es) auto

text \<open>
  Claim C9. Recovery in \<^verbatim>\<open>check_compliance_violations\<close> is not atomic. When the
  violations list holds a state-restriction entry that lacks \<^verbatim>\<open>state\<close>,
  \<^verbatim>\<open>user_id\<close> or \<^verbatim>\<open>timestamp\<close>, after complete entries, the exception is caught
  and reported exactly once and the call returns; the notifications and the counter
  increments of the entries before it stay (the incomplete entry itself is counted too
  when its state could be read); there is no KYC request, the queue-size gauge keeps
  its value, and nothing is pushed.
\<close>

theorem incomplete_entry_not_rolled_back:
  assumes resp: "violations_resp c = Inr (JList (pre @ v # post))"
    and complete: "list_all complete_entry pre"
    and sr: "is_state_restriction v"
    and miss: "\<not> (has_key v ''state'' \<and> has_key v ''user_id'' \<and> has_key v ''timestamp'')"
  shows "snd (check_compliance_violations py c w) = None
       \<and> filter is_report (emitted w (fst (check_compliance_violations py c w)))
           = [CaptureException (KeyError (missing_key v))]
       \<and> filter (is_message ''error'') (emitted w (fst (check_compliance_violations py c w)))
           = map (notification py) (filter is_state_restriction pre)
       \<and> (\<forall>l. violations_at (fst (check_compliance_violations py c w)) l
             = violations_at w l
               + count_list (map (label_of py) (filter is_state_restriction pre)) l
               + (if has_key v ''state'' \<and> l = label_of py v then 1 else 0))
       \<and> HttpGet (kyc_url (mon w)) \<notin> set (emitted w (fst (check_compliance_violations py c w)))
       \<and> kyc_queue_size (metrics (mon (fst (check_compliance_violations py c w))))
           = kyc_queue_size (metrics (mon w))
       \<and> filter is_push (emitted w (fst (check_compliance_violations py c w))) = []"
proof -
  let ?w0 = "emit (HttpGet (violations_url (mon w))) w"
  let ?ns = "map (notification py) (filter is_state_restriction pre)"
  let ?x = "KeyError (missing_key v)"
  obtain w1 where pre1: "for_violations py pre ?w0 = (w1, None)"
    using for_violations_complete [OF complete, of py ?w0]
    by (cases "for_violations py pre ?w0") simp
  from for_violations_complete [OF complete, of py ?w0] pre1 have
    e1: "effects w1 = effects w @ HttpGet (violations_url (mon w)) # ?ns"
    and c1: "\<forall>l. violations_at w1 l
              = violations_at w l
                + count_list (map (label_of py) (filter is_state_restriction pre)) l"
    by simp_all
  from for_violations_shape [of py pre ?w0] pre1 have k1: "same_config w w1"
    by (auto simp: same_config_def)
  let ?w2 = "if has_key v ''state'' then inc_state (label_of py v) w1 else w1"
  have fv: "fetch_violations py c w = (?w2, Some ?x)"
    using resp pre1 violation_step_incomplete [OF sr miss, of py w1]
    by (simp add: fetch_violations_def for_violations_append)
  let ?w3 = "fst (check_compliance_violations py c w)"
  have w3: "?w3 = emit (Print (''Error in compliance check: '' @ exc_str py ?x))
                   (emit (CaptureException ?x) ?w2)"
    using fv by (simp add: check_compliance_violations_def compliance_try_def)
  have "effects ?w3 = effects w @ (HttpGet (violations_url (mon w)) # ?ns
           @ [CaptureException ?x, Print (''Error in compliance check: '' @ exc_str py ?x)])"
    using w3 e1 by simp
  then have em: "emitted w ?w3 = HttpGet (violations_url (mon w)) # ?ns
           @ [CaptureException ?x, Print (''Error in compliance check: '' @ exc_str py ?x)]"
    by (rule emitted_append)
  have ns_err: "list_all (is_message ''error'') ?ns"
    by (simp add: list_all_iff notification_def)
  have ns_filter: "filter (is_message ''error'') ?ns = ?ns"
    by (simp add: notification_def filter_map comp_def)
  have a: "snd (check_compliance_violations py c w) = None"
    by (rule check_compliance_returns)
  have b: "filter is_report (emitted w ?w3) = [CaptureException ?x]"
    using em list_all_error_quiet [OF ns_err] by simp
  have c: "filter (is_message ''error'') (emitted w ?w3) = ?ns"
    using em ns_filter by simp
  have d: "\<forall>l. violations_at ?w3 l
             = violations_at w l
               + count_list (map (label_of py) (filter is_state_restriction pre)) l
               + (if has_key v ''state'' \<and> l = label_of py v then 1 else 0)"
    using w3 c1 by simp
  have e: "HttpGet (kyc_url (mon w)) \<notin> set (emitted w ?w3)"
    using em list_all_error_no_kyc [OF ns_err, of "kyc_url (mon w)"] by simp
  have f: "kyc_queue_size (metrics (mon ?w3)) = kyc_queue_size (metrics (mon w))"
    using w3 k1 by (simp add: same_config_def inc_state_def)
  have g: "filter is_push (emitted w ?w3) = []"
    using em list_all_error_quiet [OF ns_err] by simp
  from a b c d e f g show ?thesis by simp
qed


theorem incomplete_entry_not_rolled_back_witness:
  "list_all complete_entry [tx_entry]
   \<and> is_state_restriction (JObj [(''type'', JStr ''STATE_RESTRICTION''), (''state'', JStr ''CA''),
                                  (''user_id'', JStr ''u2'')])
   \<and> \<not> has_key (JObj [(''type'', JStr ''STATE_RESTRICTION''), (''state'', JStr ''CA''),
                        (''user_id'', JStr ''u2'')]) ''timestamp''
   \<and> filter is_report
        (emitted (start sample_env)
           (fst (check_compliance_violations sample_py
              (quiet_cycle\<lparr> violations_resp := Inr (JList ([tx_entry] @
                  JObj [(''type'', JStr ''STATE_RESTRICTION''), (''state'', JStr ''CA''),
                        (''user_id'', JStr ''u2'')] # [tx_entry])) \<rparr>)
              (start sample_env))))
       = [CaptureException (KeyError ''timestamp'')]
   \<and> filter (is_message ''error'')
        (emitted (start sample_env)
           (fst (check_compliance_violations sample_py
              (quiet_cycle\<lparr> violations_resp := Inr (JList ([tx_entry] @
                  JObj [(''type'', JStr ''STATE_RESTRICTION''), (''state'', JStr ''CA''),
                        (''user_id'', JStr ''u2'')] # [tx_entry])) \<rparr>)
              (start sample_env))))
       = [CaptureMessage ''State restriction violation: TX'' ''error''
            [(''user_id'', JStr ''u1''), (''state'', JStr ''TX''), (''timestamp'', JStr ''T'')]]
   \<and> violations_at
        (fst (check_compliance_violations sample_py
              (quiet_cycle\<lparr> violations_resp := Inr (JList ([tx_entry] @
                  JObj [(''type'', JStr ''STATE_RESTRICTION''), (''state'', JStr ''CA''),
                        (''user_id'', JStr ''u2'')] # [tx_entry])) \<rparr>)
              (start sample_env))) ''TX'' = 1"
proof -
  let ?v = "JObj [(''type'', JStr ''STATE_RESTRICTION''), (''state'', JStr ''CA''),
                  (''user_id'', JStr ''u2'')]"
  let ?c = "quiet_cycle\<lparr> violations_resp := Inr (JList ([tx_entry] @ ?v # [tx_entry])) \<rparr>"
  have resp: "violations_resp ?c = Inr (JList ([tx_entry] @ ?v # [tx_entry]))"
    by simp
  have ok: "list_all complete_entry [tx_entry]"
    by (simp add: complete_entry_def has_key_def is_state_restriction_def tx_entry_def)
  have sr: "is_state_restriction ?v"
    by (simp add: is_state_restriction_def)
  have miss: "\<not> (has_key ?v ''state'' \<and> has_key ?v ''user_id'' \<and> has_key ?v ''timestamp'')"
    by (simp add: has_key_def)
  have ts: "\<not> has_key ?v ''timestamp''"
    by (simp add: has_key_def)
  have mk: "missing_key ?v = ''timestamp''"
    by (simp add: missing_key_def has_key_def)
  have f: "filter is_state_restriction [tx_entry] = [tx_entry]"
    by (simp add: is_state_restriction_def tx_entry_def)
  have lbl: "label_of sample_py tx_entry = ''TX''" "label_of sample_py ?v = ''CA''"
    by (simp_all add: label_of_def field_def tx_entry_def py_str_def)
  have n: "notification sample_py tx_entry
         = CaptureMessage ''State restriction violation: TX'' ''error''
            [(''user_id'', JStr ''u1''), (''state'', JStr ''TX''), (''timestamp'', JStr ''T'')]"
    by (simp add: notification_def field_def tx_entry_def py_str_def)
  have z: "violations_at (start sample_env) ''TX'' = 0"
    by (simp add: violations_at_def start_def init_monitor_def count_of_def)
  show ?thesis
    using ok sr ts
      incomplete_entry_not_rolled_back [OF resp ok sr miss, of sample_py "start sample_env"]
    unfolding f mk
    by (simp add: lbl n z)
qed

section \<open>The violation counter over the life of the process\<close>

lemma violation_step_counted:
  "violations_at (fst (violation_step py v w)) l
     = violations_at w l
       + (if has_key v ''type'' \<and> is_state_restriction v \<and> has_key v ''state''
             \<and> l = label_of py v then 1 else 0)"
  by (auto simp: violation_step_def has_key_def is_state_restriction_def label_of_def
        field_def Let_def split: sum.splits)

lemma violation_step_ok_iff:
  "snd (violation_step py v w) = None \<longleftrightarrow> complete_entry v"
  by (auto simp: violation_step_def has_key_def is_state_restriction_def complete_entry_def
        Let_def split: sum.splits)

lemma for_violations_counted:
  "violations_at (fst (for_violations py vs w)) l
     = violations_at w l + count_list (counted py vs) l"
proof (induction vs arbitrary: w)
  case Nil
  show ?case by simp
next
  case (Cons v vs)
  obtain w1 r where step: "violation_step py v w = (w1, r)"
    by (cases "violation_step py v w")
  have cnt: "violations_at w1 l
     = violations_at w l
       + (if has_key v ''type'' \<and> is_state_restriction v \<and> has_key v ''state''
             \<and> l = label_of py v then 1 else 0)"
    using violation_step_counted [of py v w l] step by simp
  have ok: "r = None \<longleftrightarrow> complete_entry v"
    using violation_step_ok_iff [of py v w] step by simp
  show ?case
  proof (cases r)
    case None
    with ok have "complete_entry v" by simp
    then show ?thesis
      using step None cnt Cons.IH [of w1]
      by (auto simp: complete_entry_def)
  next
    case (Some x)
    with ok have "\<not> complete_entry v" by simp
    then show ?thesis
      using step Some cnt
      by (auto simp: complete_entry_def)
  qed
qed

lemma fetch_violations_counted:
  "violations_at (fst (fetch_violations py c w)) l
     = violations_at w l + count_list (cycle_counted py c) l"
  using for_violations_counted [of py _ "emit (HttpGet (violations_url (mon w))) w" l]
  by (simp add: fetch_violations_def cycle_counted_def split: sum.splits)

lemma check_compliance_counted:
  "violations_at (fst (check_compliance_violations py c w)) l
     = violations_at w l + count_list (cycle_counted py c) l"
  using check_compliance_tail [of py c w] fetch_violations_counted [of py c w l] by auto

lemma loop_body_counted:
  "violations_at (fst (loop_body py e c w)) l
     = violations_at w l + count_list (cycle_counted py c) l"
  using check_financial_shape [of py e c "fst (check_compliance_violations py c w)"]
    check_compliance_counted [of py c w l]
  by (auto simp: loop_body_eq violations_at_def)

lemma main_loop_counted:
  "violations_at (fst (main_loop py e cs w)) l
     = violations_at w l + count_list (concat (map (cycle_counted py) cs)) l"
proof (induction cs arbitrary: w)
  case Nil
  show ?case by simp
next
  case (Cons c cs)
  show ?case
    using Cons.IH [of "emit (Sleep 60) (fst (loop_body py e c w))"]
      loop_body_counted [of py e c w l]
    by (simp add: loop_body_eq)
qed


lemma kyc_and_push_pushes:
  "PushToGateway g j r \<in> set (emitted w (fst (kyc_and_push py c w))) \<Longrightarrow>
     state_violations r = state_violations (metrics (mon w))"
  by (auto simp: kyc_and_push_def emitted_def set_kyc_def Let_def split: sum.splits if_splits)

lemma list_all_error_no_push:
  "list_all (is_message ''error'') es \<Longrightarrow> PushToGateway g j r \<notin> set es"
  by (induction es) auto

lemma check_compliance_pushes:
  assumes push: "PushToGateway g j r
                   \<in> set (emitted w (fst (check_compliance_violations py c w)))"
  shows "count_of (state_violations r) l
           = violations_at (fst (check_compliance_violations py c w)) l"
proof -
  obtain w2 r2 where fv: "fetch_violations py c w = (w2, r2)"
    by (cases "fetch_violations py c w")
  from fetch_violations_shape [of py c w] fv obtain es where
    es: "effects w2 = effects w @ HttpGet (violations_url (mon w)) # es"
        "list_all (is_message ''error'') es"
    by auto
  obtain w3 r3 where kp: "kyc_and_push py c w2 = (w3, r3)"
    by (cases "kyc_and_push py c w2")
  from kyc_and_push_shape [of py c w2] kp obtain ks where
    ks: "effects w3 = effects w2 @ HttpGet (kyc_url (mon w2)) # ks"
        "\<forall>l. violations_at w3 l = violations_at w2 l"
    by auto
  have ks_em: "emitted w2 w3 = HttpGet (kyc_url (mon w2)) # ks"
    using ks(1) by (rule emitted_append)
  show ?thesis
  proof (cases r2)
    case (Some x)
    have "effects (fst (check_compliance_violations py c w))
            = effects w @ (HttpGet (violations_url (mon w)) # es
                @ [CaptureException x, Print (''Error in compliance check: '' @ exc_str py x)])"
      using fv Some es by (simp add: check_compliance_violations_def compliance_try_def)
    then have "emitted w (fst (check_compliance_violations py c w))
            = HttpGet (violations_url (mon w)) # es
                @ [CaptureException x, Print (''Error in compliance check: '' @ exc_str py x)]"
      by (rule emitted_append)
    with push list_all_error_no_push [OF es(2), of g j r] show ?thesis by auto
  next
    case None
    have "\<exists>hs. effects (fst (check_compliance_violations py c w))
            = effects w @ (HttpGet (violations_url (mon w)) # es
                @ HttpGet (kyc_url (mon w2)) # ks @ hs)
          \<and> filter is_push hs = []
          \<and> (\<forall>l. violations_at (fst (check_compliance_violations py c w)) l
                 = violations_at w3 l)"
      using fv None kp es ks
      by (cases r3) (simp_all add: check_compliance_violations_def compliance_try_def)
    then obtain hs where
      hs: "effects (fst (check_compliance_violations py c w))
            = effects w @ (HttpGet (violations_url (mon w)) # es
                @ HttpGet (kyc_url (mon w2)) # ks @ hs)"
          "filter is_push hs = []"
          "\<forall>l. violations_at (fst (check_compliance_violations py c w)) l = violations_at w3 l"
      by blast
    have "emitted w (fst (check_compliance_violations py c w))
            = HttpGet (violations_url (mon w)) # es @ HttpGet (kyc_url (mon w2)) # ks @ hs"
      using hs(1) by (rule emitted_append)
    moreover have "PushToGateway g j r \<notin> set hs"
      using hs(2) by (auto simp: filter_empty_conv)
    ultimately have "PushToGateway g j r \<in> set ks"
      using push list_all_error_no_push [OF es(2), of g j r] by auto
    then have "PushToGateway g j r \<in> set (emitted w2 (fst (kyc_and_push py c w2)))"
      using ks_em kp by simp
    then have "state_violations r = state_violations (metrics (mon w2))"
      by (rule kyc_and_push_pushes)
    then show ?thesis
      using hs(3) ks(2) by (simp add: violations_at_def)
  qed
qed

lemma check_financial_no_push:
  "\<exists>es. effects (fst (check_financial_integrity py e c w)) = effects w @ es
        \<and> filter is_push es = []
        \<and> mon (fst (check_financial_integrity py e c w)) = mon w"
proof -
  obtain w' r where it: "integrity_try py e c w = (w', r)"
    by (cases "integrity_try py e c w")
  from integrity_try_shape [of py e c w] it obtain es where
    es: "effects w' = effects w @ HttpGet (integrity_url (mon w)) # es"
        "list_all (\<lambda>x. is_message ''fatal'' x \<or> is_post x) es" "mon w' = mon w"
    by auto
  have "filter is_push es = []"
    using es(2) by (induction es) (auto elim: is_message.elims is_post.elims)
  then show ?thesis
    using it es by (cases r) (simp_all add: check_financial_integrity_def)
qed

text \<open>
  Claim C7. The violation counter is only ever incremented. For every label its value
  after a pass through the loop is at least its value before; after any number of
  cycles it is the value at the beginning plus everything counted in those cycles, so
  from a fresh monitor it is the total over the life of the process; and a push made in
  a cycle carries the value the counter has at the end of that cycle, that is the
  running total and not the count of that cycle.
\<close>

theorem violation_counter_cumulative:
  "(\<forall>l. violations_at w l \<le> violations_at (fst (loop_body py e c w)) l)
   \<and> (\<forall>l. violations_at (fst (main_loop py e cs w)) l
          = violations_at w l + count_list (concat (map (cycle_counted py) cs)) l)
   \<and> (\<forall>l. violations_at (fst (main_loop py e cs (start e))) l
          = count_list (concat (map (cycle_counted py) cs)) l)
   \<and> (\<forall>g j r l. PushToGateway g j r \<in> set (emitted w (fst (loop_body py e c w)))
          \<longrightarrow> count_of (state_violations r) l = violations_at (fst (loop_body py e c w)) l)"
proof -
  let ?w1 = "fst (check_compliance_violations py c w)"
  let ?w2 = "fst (check_financial_integrity py e c ?w1)"
  have a: "\<forall>l. violations_at w l \<le> violations_at (fst (loop_body py e c w)) l"
    by (simp add: loop_body_counted)
  have b: "\<forall>l. violations_at (fst (main_loop py e cs w)) l
          = violations_at w l + count_list (concat (map (cycle_counted py) cs)) l"
    by (simp add: main_loop_counted)
  have z: "violations_at (start e) l = 0" for l
    by (simp add: violations_at_def start_def init_monitor_def count_of_def)
  have c: "\<forall>l. violations_at (fst (main_loop py e cs (start e))) l
          = count_list (concat (map (cycle_counted py) cs)) l"
    by (simp add: main_loop_counted z)
  have d: "count_of (state_violations r) l = violations_at (fst (loop_body py e c w)) l"
    if push: "PushToGateway g j r \<in> set (emitted w (fst (loop_body py e c w)))" for g j r l
  proof -
    from check_compliance_tail [of py c w] fetch_violations_shape [of py c w]
    obtain es1 where e1: "effects ?w1 = effects w @ es1" by auto
    from check_financial_no_push [of py e c ?w1] obtain es2 where
      e2: "effects ?w2 = effects ?w1 @ es2" "filter is_push es2 = []" "mon ?w2 = mon ?w1"
      by auto
    have em1: "emitted w ?w1 = es1" using e1 by (rule emitted_append)
    have "effects ?w2 = effects w @ (es1 @ es2)" using e1 e2 by simp
    then have "emitted w ?w2 = es1 @ es2" by (rule emitted_append)
    moreover have "PushToGateway g j r \<notin> set es2"
      using e2(2) by (auto simp: filter_empty_conv)
    ultimately have "PushToGateway g j r \<in> set (emitted w ?w1)"
      using push em1 by (simp add: loop_body_eq)
    then have "count_of (state_violations r) l = violations_at ?w1 l"
      by (rule check_compliance_pushes)
    then show ?thesis using e2(3) by (simp add: loop_body_eq violations_at_def)
  qed
  from a b c d show ?thesis by blast
qed


theorem violation_counter_cumulative_witness:
  "PushToGateway ''localhost:9091'' ''compliance_monitor''
       \<lparr> state_violations = [''TX'' \<mapsto> 1], kyc_queue_size = Num 50,
         daily_deposits = Map.empty \<rparr>
     \<in> set (emitted (start sample_env)
              (fst (loop_body sample_py sample_env
                      (quiet_cycle\<lparr> violations_resp := Inr (JList [tx_entry]) \<rparr>)
                      (start sample_env))))
   \<and> violations_at
        (fst (loop_body sample_py sample_env
                (quiet_cycle\<lparr> violations_resp := Inr (JList [tx_entry]) \<rparr>)
                (start sample_env))) ''TX'' = 1
   \<and> violations_at
        (fst (main_loop sample_py sample_env
                [quiet_cycle\<lparr> violations_resp := Inr (JList [tx_entry]) \<rparr>,
                 quiet_cycle\<lparr> violations_resp := Inr (JList [tx_entry]) \<rparr>]
                (start sample_env))) ''TX'' = 2"
proof -
  let ?c = "quiet_cycle\<lparr> violations_resp := Inr (JList [tx_entry]) \<rparr>"
  let ?r = "\<lparr> state_violations = [''TX'' \<mapsto> 1::nat], kyc_queue_size = Num 50,
              daily_deposits = Map.empty \<rparr>"
  have mem: "PushToGateway ''localhost:9091'' ''compliance_monitor'' ?r
     \<in> set (emitted (start sample_env) (fst (loop_body sample_py sample_env ?c (start sample_env))))"
    by (simp add: emitted_def loop_body_def check_compliance_violations_def compliance_try_def
        kyc_and_push_def fetch_violations_def violation_step_def check_financial_integrity_def
        integrity_try_def start_def init_monitor_def py_str_def inc_state_def set_kyc_def
        count_of_def Let_def quiet_cycle_def tx_entry_def sample_env_def getenv_def)
  have cc: "cycle_counted sample_py ?c = [''TX'']"
    by (simp add: cycle_counted_def tx_entry_def has_key_def is_state_restriction_def
          label_of_def field_def py_str_def)
  have one: "count_of (state_violations ?r) ''TX'' = 1"
    by (simp add: count_of_def)
  note th = violation_counter_cumulative [where w = "start sample_env" and py = sample_py
        and e = sample_env and c = ?c and cs = "[?c, ?c]"]
  from th mem have "count_of (state_violations ?r) ''TX''
      = violations_at (fst (loop_body sample_py sample_env ?c (start sample_env))) ''TX''"
    by blast
  with one have a: "violations_at (fst (loop_body sample_py sample_env ?c (start sample_env))) ''TX'' = 1"
    by (simp only:)
  from th have "violations_at (fst (main_loop sample_py sample_env [?c, ?c] (start sample_env))) ''TX''
      = count_list (concat (map (cycle_counted sample_py) [?c, ?c])) ''TX''"
    by blast
  moreover have "count_list (concat (map (cycle_counted sample_py) [?c, ?c])) ''TX'' = 2"
    by (simp add: cc)
  ultimately have b: "violations_at (fst (main_loop sample_py sample_env [?c, ?c] (start sample_env))) ''TX'' = 2"
    by (simp only:)
  from mem a b show ?thesis by (simp only: simp_thms)
qed


section \<open>The financial integrity check\<close>

lemma trigger_without_key:
  "\<not> key_configured e \<Longrightarrow> trigger_pagerduty_alert e c t m w = (w, None)"
  by (simp add: key_configured_def trigger_pagerduty_alert_def split: option.splits)

lemma trigger_with_key:
  "key_configured e \<Longrightarrow>
     \<exists>body. trigger_pagerduty_alert e c t m w
       = (emit (HttpPost ''https://events.pagerduty.com/v2/enqueue'' body) w, post_result c)"
  by (auto simp: key_configured_def trigger_pagerduty_alert_def split: option.splits)

lemma integrity_try_balanced:
  assumes "integrity_resp c = Inr integrity"
    and "subscript integrity ''balanced'' = Inr balanced" and "truthy balanced"
  shows "integrity_try py e c w = (emit (HttpGet (integrity_url (mon w))) w, None)"
  using assms by (simp add: integrity_try_def)

lemma integrity_try_unbalanced:
  assumes "integrity_resp c = Inr integrity"
    and "subscript integrity ''balanced'' = Inr balanced" and "\<not> truthy balanced"
    and "subscript integrity ''imbalance'' = Inr imb"
    and "subscript integrity ''affected_users'' = Inr au"
  shows "integrity_try py e c w =
           trigger_pagerduty_alert e c ''Ledger Imbalance'' (page_message py imb)
             (emit (fatal_notification imb au) (emit (HttpGet (integrity_url (mon w))) w))"
  using assms by (simp add: integrity_try_def fatal_notification_def page_message_def)

text \<open>
  Claim C2, as amended. For every integrity response that is an object whose
  \<^verbatim>\<open>balanced\<close> field is a Boolean and that, when it is false, also has the fields
  \<^verbatim>\<open>imbalance\<close> and \<^verbatim>\<open>affected_users\<close>: \<^verbatim>\<open>check_financial_integrity\<close> sends a
  fatal-level notification, with the imbalance amount and the affected users as extras,
  and calls the paging operation once, if and only if \<^verbatim>\<open>balanced\<close> is false; when it
  is true there is no notification and no paging request. The paging operation sends
  one request when a credential is configured.
\<close>

theorem integrity_notification_and_page:
  assumes resp: "integrity_resp c = Inr integrity"
    and bal: "subscript integrity ''balanced'' = Inr (JBool b)"
    and fields: "b \<or> (subscript integrity ''imbalance'' = Inr imb
                       \<and> subscript integrity ''affected_users'' = Inr au)"
  shows "integrity_try py e c w =
           (if b then (emit (HttpGet (integrity_url (mon w))) w, None)
            else trigger_pagerduty_alert e c ''Ledger Imbalance'' (page_message py imb)
                   (emit (fatal_notification imb au)
                      (emit (HttpGet (integrity_url (mon w))) w)))
       \<and> filter is_notification (emitted w (fst (check_financial_integrity py e c w)))
           = (if b then [] else [fatal_notification imb au])
       \<and> length (filter is_post (emitted w (fst (check_financial_integrity py e c w))))
           = (if \<not> b \<and> key_configured e then 1 else 0)"
proof (cases b)
  case True
  have it: "integrity_try py e c w = (emit (HttpGet (integrity_url (mon w))) w, None)"
    using resp bal True by (simp add: integrity_try_balanced)
  then have "effects (fst (check_financial_integrity py e c w))
               = effects w @ [HttpGet (integrity_url (mon w))]"
    by (simp add: check_financial_integrity_def)
  then have "emitted w (fst (check_financial_integrity py e c w))
               = [HttpGet (integrity_url (mon w))]"
    by (rule emitted_append)
  with it True show ?thesis by simp
next
  case False
  with fields have imb: "subscript integrity ''imbalance'' = Inr imb"
    and au: "subscript integrity ''affected_users'' = Inr au" by simp_all
  let ?w1 = "emit (fatal_notification imb au) (emit (HttpGet (integrity_url (mon w))) w)"
  have it: "integrity_try py e c w =
              trigger_pagerduty_alert e c ''Ledger Imbalance'' (page_message py imb) ?w1"
    using resp bal False imb au by (simp add: integrity_try_unbalanced)
  show ?thesis
  proof (cases "key_configured e")
    case nokey: False
    have "effects (fst (check_financial_integrity py e c w))
            = effects w @ [HttpGet (integrity_url (mon w)), fatal_notification imb au]"
      using it nokey by (simp add: trigger_without_key check_financial_integrity_def)
    then have "emitted w (fst (check_financial_integrity py e c w))
            = [HttpGet (integrity_url (mon w)), fatal_notification imb au]"
      by (rule emitted_append)
    with it False nokey show ?thesis by (simp add: fatal_notification_def)
  next
    case key: True
    from trigger_with_key [OF key, of c "''Ledger Imbalance''" "page_message py imb" ?w1]
    obtain body where tr: "trigger_pagerduty_alert e c ''Ledger Imbalance'' (page_message py imb) ?w1
        = (emit (HttpPost ''https://events.pagerduty.com/v2/enqueue'' body) ?w1, post_result c)"
      by blast
    have "\<exists>hs. effects (fst (check_financial_integrity py e c w))
            = effects w @ ([HttpGet (integrity_url (mon w)), fatal_notification imb au,
                 HttpPost ''https://events.pagerduty.com/v2/enqueue'' body] @ hs)
          \<and> filter is_notification hs = [] \<and> filter is_post hs = []"
      using it tr by (cases "post_result c") (simp_all add: check_financial_integrity_def)
    then obtain hs where
      hs: "effects (fst (check_financial_integrity py e c w))
            = effects w @ ([HttpGet (integrity_url (mon w)), fatal_notification imb au,
                 HttpPost ''https://events.pagerduty.com/v2/enqueue'' body] @ hs)"
          "filter is_notification hs = []" "filter is_post hs = []"
      by blast
    have "emitted w (fst (check_financial_integrity py e c w))
            = [HttpGet (integrity_url (mon w)), fatal_notification imb au,
                 HttpPost ''https://events.pagerduty.com/v2/enqueue'' body] @ hs"
      using hs(1) by (rule emitted_append)
    with it False key hs(2,3) show ?thesis by (simp add: fatal_notification_def)
  qed
qed


theorem integrity_notification_and_page_witness:
  "subscript unbalanced_report ''balanced'' = Inr (JBool False)
   \<and> subscript unbalanced_report ''imbalance'' = Inr (JInt 250)
   \<and> subscript unbalanced_report ''affected_users'' = Inr (JList [JStr ''u1'', JStr ''u2''])
   \<and> filter is_notification
        (emitted (start sample_env)
           (fst (check_financial_integrity sample_py sample_env
                   (quiet_cycle\<lparr> integrity_resp := Inr unbalanced_report \<rparr>) (start sample_env))))
       = [CaptureMessage ''CRITICAL: Ledger imbalance detected'' ''fatal''
            [(''imbalance_amount'', JInt 250),
             (''affected_users'', JList [JStr ''u1'', JStr ''u2''])]]
   \<and> length (filter is_post
        (emitted (start sample_env)
           (fst (check_financial_integrity sample_py sample_env
                   (quiet_cycle\<lparr> integrity_resp := Inr unbalanced_report \<rparr>) (start sample_env)))))
       = 1"
proof -
  let ?c = "quiet_cycle\<lparr> integrity_resp := Inr unbalanced_report \<rparr>"
  have resp: "integrity_resp ?c = Inr unbalanced_report" by simp
  have bal: "subscript unbalanced_report ''balanced'' = Inr (JBool False)"
    by (simp add: unbalanced_report_def)
  have imb: "subscript unbalanced_report ''imbalance'' = Inr (JInt 250)"
    by (simp add: unbalanced_report_def)
  have au: "subscript unbalanced_report ''affected_users'' = Inr (JList [JStr ''u1'', JStr ''u2''])"
    by (simp add: unbalanced_report_def)
  have fields: "False \<or> (subscript unbalanced_report ''imbalance'' = Inr (JInt 250)
     \<and> subscript unbalanced_report ''affected_users'' = Inr (JList [JStr ''u1'', JStr ''u2'']))"
    using imb au by simp
  have key: "key_configured sample_env"
    by (simp add: key_configured_def sample_env_def)
  show ?thesis
    using bal imb au key
      integrity_notification_and_page [OF resp bal fields, of sample_py sample_env "start sample_env"]
    by (simp add: fatal_notification_def)
qed

text \<open>
  The claim as first stated, for every integrity response, fails for the response
  \<^verbatim>\<open>{"balanced": false}\<close>: reading the missing \<^verbatim>\<open>imbalance\<close> raises before the
  notification is sent, so there is no notification and no paging request, only the
  report of the exception.
\<close>

theorem report_without_fields_counterexample:
  "subscript (JObj [(''balanced'', JBool False)]) ''balanced'' = Inr (JBool False)
   \<and> filter is_notification
        (emitted (start sample_env)
           (fst (check_financial_integrity sample_py sample_env
                   (quiet_cycle\<lparr> integrity_resp := Inr (JObj [(''balanced'', JBool False)]) \<rparr>)
                   (start sample_env)))) = []
   \<and> filter is_post
        (emitted (start sample_env)
           (fst (check_financial_integrity sample_py sample_env
                   (quiet_cycle\<lparr> integrity_resp := Inr (JObj [(''balanced'', JBool False)]) \<rparr>)
                   (start sample_env)))) = []
   \<and> filter is_report
        (emitted (start sample_env)
           (fst (check_financial_integrity sample_py sample_env
                   (quiet_cycle\<lparr> integrity_resp := Inr (JObj [(''balanced'', JBool False)]) \<rparr>)
                   (start sample_env)))) = [CaptureException (KeyError ''imbalance'')]"
  by (simp add: emitted_def check_financial_integrity_def integrity_try_def start_def)

section \<open>A failure of the paging request\<close>

text \<open>
  Claim C5, as amended. A failure of the paging request is not handled inside
  \<^verbatim>\<open>trigger_pagerduty_alert\<close>, which lets the exception out and reports nothing
  itself; but the call is made inside the \<^verbatim>\<open>try\<close> block of
  \<^verbatim>\<open>check_financial_integrity\<close>, whose handler catches the exception and sends
  exactly one captured-exception report for it, so that neither that function nor the
  pass through the loop lets it out.
\<close>

theorem paging_failure_caught_by_caller:
  assumes key: "key_configured e" and fail: "post_result c = Some x"
    and resp: "integrity_resp c = Inr integrity"
    and bal: "subscript integrity ''balanced'' = Inr balanced" and unb: "\<not> truthy balanced"
    and imb: "subscript integrity ''imbalance'' = Inr imb"
    and au: "subscript integrity ''affected_users'' = Inr au"
  shows "snd (trigger_pagerduty_alert e c title message w0) = Some x
       \<and> filter is_report (emitted w0 (fst (trigger_pagerduty_alert e c title message w0))) = []
       \<and> snd (integrity_try py e c w) = Some x
       \<and> snd (check_financial_integrity py e c w) = None
       \<and> filter is_report (emitted w (fst (check_financial_integrity py e c w)))
           = [CaptureException x]
       \<and> snd (loop_body py e c w) = None"
proof -
  from trigger_with_key [OF key, of c title message w0] obtain body0 where
    t0: "trigger_pagerduty_alert e c title message w0
           = (emit (HttpPost ''https://events.pagerduty.com/v2/enqueue'' body0) w0, Some x)"
    using fail by auto
  then have "effects (fst (trigger_pagerduty_alert e c title message w0))
           = effects w0 @ [HttpPost ''https://events.pagerduty.com/v2/enqueue'' body0]"
    by simp
  then have em0: "emitted w0 (fst (trigger_pagerduty_alert e c title message w0))
           = [HttpPost ''https://events.pagerduty.com/v2/enqueue'' body0]"
    by (rule emitted_append)
  let ?w1 = "emit (fatal_notification imb au) (emit (HttpGet (integrity_url (mon w))) w)"
  from trigger_with_key [OF key, of c "''Ledger Imbalance''" "page_message py imb" ?w1]
  obtain body where
    t1: "trigger_pagerduty_alert e c ''Ledger Imbalance'' (page_message py imb) ?w1
           = (emit (HttpPost ''https://events.pagerduty.com/v2/enqueue'' body) ?w1, Some x)"
    using fail by auto
  have it: "integrity_try py e c w
           = (emit (HttpPost ''https://events.pagerduty.com/v2/enqueue'' body) ?w1, Some x)"
    using integrity_try_unbalanced [OF resp bal unb imb au, of py e w] t1 by simp
  then have "effects (fst (check_financial_integrity py e c w))
           = effects w @ [HttpGet (integrity_url (mon w)), fatal_notification imb au,
               HttpPost ''https://events.pagerduty.com/v2/enqueue'' body, CaptureException x]"
    by (simp add: check_financial_integrity_def)
  then have em: "emitted w (fst (check_financial_integrity py e c w))
           = [HttpGet (integrity_url (mon w)), fatal_notification imb au,
               HttpPost ''https://events.pagerduty.com/v2/enqueue'' body, CaptureException x]"
    by (rule emitted_append)
  show ?thesis
    using t0 em0 it em check_financial_returns [of py e c w] loop_body_eq [of py e c w]
    by (simp add: fatal_notification_def)
qed

theorem paging_failure_caught_by_caller_witness:
  "key_configured sample_env
   \<and> \<not> truthy (JBool False)
   \<and> snd (trigger_pagerduty_alert sample_env
            (quiet_cycle\<lparr> integrity_resp := Inr unbalanced_report,
                           post_result := Some (Raised ''Timeout'') \<rparr>)
            ''Ledger Imbalance'' ''Imbalance of 250 detected'' (start sample_env))
       = Some (Raised ''Timeout'')
   \<and> filter is_report
        (emitted (start sample_env)
           (fst (check_financial_integrity sample_py sample_env
                   (quiet_cycle\<lparr> integrity_resp := Inr unbalanced_report,
                                  post_result := Some (Raised ''Timeout'') \<rparr>)
                   (start sample_env))))
       = [CaptureException (Raised ''Timeout'')]"
proof -
  let ?c = "quiet_cycle\<lparr> integrity_resp := Inr unbalanced_report,
                          post_result := Some (Raised ''Timeout'') \<rparr>"
  have key: "key_configured sample_env"
    by (simp add: key_configured_def sample_env_def)
  have fail: "post_result ?c = Some (Raised ''Timeout'')" by simp
  have resp: "integrity_resp ?c = Inr unbalanced_report" by simp
  have bal: "subscript unbalanced_report ''balanced'' = Inr (JBool False)"
    by (simp add: unbalanced_report_def)
  have unb: "\<not> truthy (JBool False)" by simp
  have imb: "subscript unbalanced_report ''imbalance'' = Inr (JInt 250)"
    by (simp add: unbalanced_report_def)
  have au: "subscript unbalanced_report ''affected_users'' = Inr (JList [JStr ''u1'', JStr ''u2''])"
    by (simp add: unbalanced_report_def)
  show ?thesis
    using key unb
      paging_failure_caught_by_caller [OF key fail resp bal unb imb au,
        of "''Ledger Imbalance''" "''Imbalance of 250 detected''" "start sample_env"
           sample_py "start sample_env"]
    by simp
qed

text \<open>
  The claim as first stated says that the failure is unhandled and unreported. With a
  credential configured, an unbalanced report and a paging request that raises a
  connection error, \<^verbatim>\<open>check_financial_integrity\<close> returns normally and a report of
  that very exception has been sent.
\<close>

theorem paging_failure_counterexample:
  "snd (check_financial_integrity sample_py sample_env
          (quiet_cycle\<lparr> integrity_resp := Inr unbalanced_report,
                         post_result := Some (Raised ''ConnectionError'') \<rparr>)
          (start sample_env)) = None
   \<and> filter is_report
        (effects (fst (check_financial_integrity sample_py sample_env
                   (quiet_cycle\<lparr> integrity_resp := Inr unbalanced_report,
                                  post_result := Some (Raised ''ConnectionError'') \<rparr>)
                   (start sample_env))))
       = [CaptureException (Raised ''ConnectionError'')]
   \<and> filter is_post
        (effects (fst (check_financial_integrity sample_py sample_env
                   (quiet_cycle\<lparr> integrity_resp := Inr unbalanced_report,
                                  post_result := Some (Raised ''ConnectionError'') \<rparr>)
                   (start sample_env))))
       \<noteq> []"
  by (simp add: check_financial_integrity_def integrity_try_def trigger_pagerduty_alert_def
        unbalanced_report_def sample_env_def start_def)

section \<open>No paging credential\<close>

text \<open>
  Claim C6, as amended. For every integrity response whose \<^verbatim>\<open>balanced\<close> field is
  false and that has the fields \<^verbatim>\<open>imbalance\<close> and \<^verbatim>\<open>affected_users\<close>, when no
  paging credential is configured \<^verbatim>\<open>check_financial_integrity\<close> still sends the
  fatal-level notification, and \<^verbatim>\<open>trigger_pagerduty_alert\<close> makes no request.
\<close>

theorem no_credential_no_post:
  assumes nokey: "\<not> key_configured e"
    and resp: "integrity_resp c = Inr integrity"
    and bal: "subscript integrity ''balanced'' = Inr (JBool False)"
    and imb: "subscript integrity ''imbalance'' = Inr imb"
    and au: "subscript integrity ''affected_users'' = Inr au"
  shows "filter (is_message ''fatal'') (emitted w (fst (check_financial_integrity py e c w)))
           = [fatal_notification imb au]
       \<and> filter is_post (emitted w (fst (check_financial_integrity py e c w))) = []
       \<and> trigger_pagerduty_alert e c title message w0 = (w0, None)"
proof -
  have unb: "\<not> truthy (JBool False)" by simp
  have "integrity_try py e c w
          = (emit (fatal_notification imb au) (emit (HttpGet (integrity_url (mon w))) w), None)"
    using integrity_try_unbalanced [OF resp bal unb imb au, of py e w]
      trigger_without_key [OF nokey] by simp
  then have "effects (fst (check_financial_integrity py e c w))
          = effects w @ [HttpGet (integrity_url (mon w)), fatal_notification imb au]"
    by (simp add: check_financial_integrity_def)
  then have "emitted w (fst (check_financial_integrity py e c w))
          = [HttpGet (integrity_url (mon w)), fatal_notification imb au]"
    by (rule emitted_append)
  then show ?thesis
    using trigger_without_key [OF nokey] by (simp add: fatal_notification_def)
qed

theorem no_credential_no_post_witness:
  "\<not> key_configured (sample_env\<lparr> PAGERDUTY_KEY := None \<rparr>)
   \<and> filter (is_message ''fatal'')
        (emitted (start sample_env)
           (fst (check_financial_integrity sample_py (sample_env\<lparr> PAGERDUTY_KEY := None \<rparr>)
                   (quiet_cycle\<lparr> integrity_resp := Inr unbalanced_report \<rparr>) (start sample_env))))
       = [CaptureMessage ''CRITICAL: Ledger imbalance detected'' ''fatal''
            [(''imbalance_amount'', JInt 250),
             (''affected_users'', JList [JStr ''u1'', JStr ''u2''])]]
   \<and> filter is_post
        (emitted (start sample_env)
           (fst (check_financial_integrity sample_py (sample_env\<lparr> PAGERDUTY_KEY := None \<rparr>)
                   (quiet_cycle\<lparr> integrity_resp := Inr unbalanced_report \<rparr>) (start sample_env))))
       = []"
proof -
  let ?c = "quiet_cycle\<lparr> integrity_resp := Inr unbalanced_report \<rparr>"
  have nokey: "\<not> key_configured (sample_env\<lparr> PAGERDUTY_KEY := None \<rparr>)"
    by (simp add: key_configured_def)
  have resp: "integrity_resp ?c = Inr unbalanced_report" by simp
  have bal: "subscript unbalanced_report ''balanced'' = Inr (JBool False)"
    by (simp add: unbalanced_report_def)
  have imb: "subscript unbalanced_report ''imbalance'' = Inr (JInt 250)"
    by (simp add: unbalanced_report_def)
  have au: "subscript unbalanced_report ''affected_users'' = Inr (JList [JStr ''u1'', JStr ''u2''])"
    by (simp add: unbalanced_report_def)
  show ?thesis
    using nokey
      no_credential_no_post [OF nokey resp bal imb au, of "start sample_env" sample_py
        "''t''" "''m''" "start sample_env"]
    by (simp add: fatal_notification_def)
qed

text \<open>
  The claim as first stated, for every response with \<^verbatim>\<open>balanced\<close> false, fails when
  \<^verbatim>\<open>affected_users\<close> is missing: the exception comes before the notification, and
  no fatal-level notification is sent.
\<close>

theorem no_credential_missing_field_counterexample:
  "\<not> key_configured (sample_env\<lparr> PAGERDUTY_KEY := None \<rparr>)
   \<and> subscript (JObj [(''balanced'', JBool False), (''imbalance'', JInt 250)]) ''balanced''
       = Inr (JBool False)
   \<and> filter (is_message ''fatal'')
        (emitted (start sample_env)
           (fst (check_financial_integrity sample_py (sample_env\<lparr> PAGERDUTY_KEY := None \<rparr>)
                   (quiet_cycle\<lparr> integrity_resp :=
                      Inr (JObj [(''balanced'', JBool False), (''imbalance'', JInt 250)]) \<rparr>)
                   (start sample_env)))) = []"
  by (simp add: key_configured_def emitted_def check_financial_integrity_def integrity_try_def
        start_def)

end
